theory Spec2Isabelle
  imports Main "HOL-Library.Word"
begin

section \<open>Keyrings and secret-key retrieval (libkb/keyring.go)\<close>

text \<open>
  A shallow embedding of \<^verbatim>\<open>src/libkb/keyring.go\<close>. Pointers are options
  (\<open>None\<close> is \<^verbatim>\<open>nil\<close>), Go maps are HOL maps, a method that mutates its receiver
  returns the receiver's new value, and every function that calls out of the file also
  returns the list of those calls, in the order the code makes them.
\<close>

subsection \<open>Errors\<close>

text \<open>
  The error values this file creates or tests for. \<open>ErrNotExist\<close> is an error on which
  \<^verbatim>\<open>os.IsNotExist\<close> answers true; \<open>OtherError\<close> is any other error (I/O, format,
  transport), with its message.
\<close>

datatype error =
    NoUsernameError
  | NoSecretKeyError
  | NoKeyringsError
  | ErrNotExist
  | OtherError string

definition os_IsNotExist :: "error option \<Rightarrow> bool" where
  "os_IsNotExist err = (err = Some ErrNotExist)"

subsection \<open>Key material, as the external OpenPGP library hands it over\<close>

type_synonym PgpFingerprint = "8 word list"

text \<open>
  \<^verbatim>\<open>packet.PublicKey\<close>, as far as this file observes it: what \<^verbatim>\<open>KeyIdString()\<close>
  returns and the \<^verbatim>\<open>Fingerprint\<close> field.
\<close>

record pubkey =
  KeyIdString :: string
  Fingerprint :: PgpFingerprint

datatype privkey = PrivKey nat

record Subkey =
  sub_PublicKey :: "pubkey option"
  sub_PrivateKey :: "privkey option"

record Entity =
  PrimaryKey :: "pubkey option"
  PrivateKey :: "privkey option"
  Identities :: "string list"
  Subkeys :: "Subkey list"

text \<open>\<^verbatim>\<open>openpgp.Key\<close>; its zero value has every field nil.\<close>

record Key =
  key_Entity :: "Entity option"
  key_PublicKey :: "pubkey option"
  key_PrivateKey :: "privkey option"


type_synonym os_File = string

text \<open>
  The functions of the operating system and of the OpenPGP library that the keyring
  files call. They are not code of this file, so they are parameters of the model.
  \<open>os_Open\<close> and \<open>ReadKeyRing\<close> return Go's pair of a value and an error.
\<close>

record sys =
  os_Open :: "string \<Rightarrow> os_File option \<times> error option"
  ReadKeyRing :: "os_File \<Rightarrow> Entity list \<times> error option"
  el_KeysById :: "Entity list \<Rightarrow> 64 word \<Rightarrow> Key list"
  el_KeysByIdUsage :: "Entity list \<Rightarrow> 64 word \<Rightarrow> 8 word \<Rightarrow> Key list"
  el_DecryptionKeys :: "Entity list \<Rightarrow> Key list"

subsection \<open>KeyringFile and Keyrings\<close>

text \<open>
  The two indexes hold entity pointers. A nil map reads like an empty one, so the nil
  indexes of a file that \<open>MakeKeyrings\<close> has just built are \<open>Map.empty\<close>.
\<close>

record KeyringFile =
  filename :: string
  Entities :: "Entity list"
  isPublic :: bool
  indexId :: "string \<rightharpoonup> Entity option"
  indexFingerprint :: "PgpFingerprint \<rightharpoonup> Entity option"

text \<open>
  \<open>'f\<close> is the type \<^verbatim>\<open>SKBKeyringFile\<close>, declared outside this file. The mutex is
  modelled by the \<open>EvLock\<close> and \<open>EvUnlock\<close> events below. A nil slice of files behaves
  like an empty one everywhere in this file (a loop over it does nothing), so both are
  \<open>[]\<close>.
\<close>

record 'f Keyrings =
  Public :: "KeyringFile list"
  Secret :: "KeyringFile list"
  skbMap :: "string \<rightharpoonup> 'f option"

definition MakeKeyrings :: "string list \<Rightarrow> bool \<Rightarrow> KeyringFile list" where
  "MakeKeyrings filenames isPub =
     map (\<lambda>fn. \<lparr>filename = fn, Entities = [], isPublic = isPub,
                 indexId = Map.empty, indexFingerprint = Map.empty\<rparr>) filenames"

text \<open>
  \<open>NewKeyrings\<close>: the arguments are what the code reads from its environment
  (\<^verbatim>\<open>e.GetPublicKeyrings()\<close>, \<^verbatim>\<open>e.GetPgpSecretKeyrings()\<close>, \<^verbatim>\<open>usage.GpgKeyring\<close>).
\<close>

definition NewKeyrings :: "string list \<Rightarrow> string list \<Rightarrow> bool \<Rightarrow> 'f Keyrings" where
  "NewKeyrings pubs secs gpgKeyring =
     (if gpgKeyring
      then \<lparr>Public = MakeKeyrings pubs True, Secret = MakeKeyrings secs False,
            skbMap = Map.empty\<rparr>
      else \<lparr>Public = [], Secret = [], skbMap = Map.empty\<rparr>)"

subsection \<open>The openpgp.KeyRing interface\<close>




subsection \<open>FindKey\<close>

fun FindKey_loop :: "KeyringFile list \<Rightarrow> PgpFingerprint \<Rightarrow> bool \<Rightarrow> Entity option" where
  "FindKey_loop [] fp secret = None"
| "FindKey_loop (file # l) fp secret =
     (case indexFingerprint file fp of
        Some (Some key) \<Rightarrow>
          if \<not> secret \<or> PrivateKey key \<noteq> None then Some key
          else FindKey_loop l fp secret
      | _ \<Rightarrow> FindKey_loop l fp secret)"

definition FindKey :: "'f Keyrings \<Rightarrow> PgpFingerprint \<Rightarrow> bool \<Rightarrow> Entity option" where
  "FindKey k fp secret = FindKey_loop (if secret then Secret k else Public k) fp secret"

subsection \<open>Calls out of the file\<close>

type_synonym KID = "8 word list"

datatype event =
    EvLock
  | EvUnlock
  | EvMapRead string
  | EvMapWrite string
  | EvOpen string
  | EvReadKeyRing string
  | EvSKBLoadAndIndex string
  | EvLoadMe
  | EvGetComputedKeyFamily
  | EvGetActiveSibkeyKidForCurrentDevice
  | EvLookupByKid KID
  | EvSearchWithComputedKeyFamily
  | EvGetSyncedSecretKey

subsection \<open>Loading and indexing one keyring file\<close>

definition Load :: "sys \<Rightarrow> KeyringFile \<Rightarrow> KeyringFile \<times> error option \<times> event list" where
  "Load s k =
     (case os_Open s (filename k) of (file, err) \<Rightarrow>
        if \<not> os_IsNotExist err \<and> err \<noteq> None then (k, err, [EvOpen (filename k)])
        else (case file of
                None \<Rightarrow> (k, None, [EvOpen (filename k)])
              | Some h \<Rightarrow>
                  (case ReadKeyRing s h of (el, err') \<Rightarrow>
                     (k\<lparr>Entities := el\<rparr>, err',
                      [EvOpen (filename k), EvReadKeyRing (filename k)]))))"

type_synonym index = "(string \<rightharpoonup> Entity option) \<times> (PgpFingerprint \<rightharpoonup> Entity option)"

fun index_key :: "Entity \<Rightarrow> pubkey option \<Rightarrow> index \<Rightarrow> index" where
  "index_key entity None (ids, fps) = (ids, fps)"
| "index_key entity (Some pk) (ids, fps) =
     (ids(KeyIdString pk \<mapsto> Some entity), fps(Fingerprint pk \<mapsto> Some entity))"

definition index_entity :: "Entity \<Rightarrow> index \<Rightarrow> index" where
  "index_entity entity ix =
     fold (\<lambda>subkey. index_key entity (sub_PublicKey subkey)) (Subkeys entity)
       (index_key entity (PrimaryKey entity) ix)"

text \<open>
  \<open>Index\<close> starts from two fresh maps and always returns nil. The counters \<^verbatim>\<open>p\<close> and
  \<^verbatim>\<open>s\<close> of the code are only logged.
\<close>

definition Index :: "KeyringFile \<Rightarrow> KeyringFile \<times> error option" where
  "Index k =
     (case fold index_entity (Entities k) (Map.empty, Map.empty) of (ids, fps) \<Rightarrow>
        (k\<lparr>indexId := ids, indexFingerprint := fps\<rparr>, None))"

definition LoadAndIndex :: "sys \<Rightarrow> KeyringFile \<Rightarrow> KeyringFile \<times> error option \<times> event list" where
  "LoadAndIndex s k =
     (case Load s k of (k1, err, evs) \<Rightarrow>
        if err = None then (case Index k1 of (k2, err2) \<Rightarrow> (k2, err2, evs))
        else (k1, err, evs))"

subsection \<open>Loading all keyring files\<close>

fun LoadKeyrings :: "sys \<Rightarrow> KeyringFile list \<Rightarrow> KeyringFile list \<times> error option \<times> event list" where
  "LoadKeyrings s [] = ([], None, [])"
| "LoadKeyrings s (k # v) =
     (case LoadAndIndex s k of (k', err, evs) \<Rightarrow>
        if err \<noteq> None then (k' # v, err, evs)
        else (case LoadKeyrings s v of (v', err', evs') \<Rightarrow> (k' # v', err', evs @ evs')))"

text \<open>
  \<^verbatim>\<open>Keyrings.Load\<close>: the error of the secret files' \<open>LoadKeyrings\<close> is dropped
  (\<^verbatim>\<open>k.LoadKeyrings(k.Secret)\<close> is a statement, its value unused).
\<close>

definition Keyrings_Load :: "sys \<Rightarrow> 'f Keyrings \<Rightarrow> 'f Keyrings \<times> error option \<times> event list" where
  "Keyrings_Load s k =
     (case LoadKeyrings s (Public k) of (pub, err, evs) \<Rightarrow>
        if err = None
        then (case LoadKeyrings s (Secret k) of (sec, err', evs') \<Rightarrow>
                (k\<lparr>Public := pub, Secret := sec\<rparr>, err, evs @ evs'))
        else (k\<lparr>Public := pub\<rparr>, err, evs))"

subsection \<open>The per-user secret keyring cache\<close>

text \<open>
  \<^verbatim>\<open>SKBFilenameForUser\<close>: \<open>has_token\<close> is \<^verbatim>\<open>strings.Index(tmp, "%u") >= 0\<close> and
  \<open>replace_token\<close> is \<^verbatim>\<open>strings.Replace(tmp, "%u", un, -1)\<close>, which replaces the
  occurrences of the token from left to right.
\<close>

fun has_token :: "string \<Rightarrow> bool" where
  "has_token (c # d # rest) = ([c, d] = ''%u'' \<or> has_token (d # rest))"
| "has_token cs = False"

fun replace_token :: "string \<Rightarrow> string \<Rightarrow> string" where
  "replace_token (c # d # rest) un =
     (if [c, d] = ''%u'' then un @ replace_token rest un
      else c # replace_token (d # rest) un)"
| "replace_token cs un = cs"

text \<open>
  What \<open>LoadSKBKeyring\<close> uses and this file does not define: the configured template
  (\<^verbatim>\<open>G.Env.GetSecretKeyringTemplate()\<close>), the constructor \<^verbatim>\<open>NewSKBKeyringFile\<close>
  (it returns a pointer to a new file, never nil) and the method
  \<^verbatim>\<open>SKBKeyringFile.LoadAndIndex\<close>, which returns the file as the call leaves it and
  the error.
\<close>

record 'f skbenv =
  GetSecretKeyringTemplate :: string
  NewSKBKeyringFile :: "string \<Rightarrow> 'f"
  skb_LoadAndIndex :: "'f \<Rightarrow> 'f \<times> error option"

definition SKBFilenameForUser :: "'f skbenv \<Rightarrow> string \<Rightarrow> string" where
  "SKBFilenameForUser e un =
     (let tmp = GetSecretKeyringTemplate e
      in if \<not> has_token tmp then tmp else replace_token tmp un)"

text \<open>
  \<open>LoadSKBKeyring\<close> returns the keyrings with the cache as the call leaves it, the
  pair \<open>(f, err)\<close> and the calls. \<^verbatim>\<open>k.skbMap[un]\<close> is nil for an absent key and for
  a stored nil pointer alike.
\<close>

definition LoadSKBKeyring ::
  "'f skbenv \<Rightarrow> 'f Keyrings \<Rightarrow> string \<Rightarrow> 'f Keyrings \<times> ('f option \<times> error option) \<times> event list" where
  "LoadSKBKeyring e k un =
     (case skbMap k un of
        Some (Some f) \<Rightarrow> (k, (Some f, None), [EvLock, EvMapRead un, EvUnlock])
      | _ \<Rightarrow>
          if length un = 0
          then (k, (None, Some NoUsernameError), [EvLock, EvMapRead un, EvUnlock])
          else (case skb_LoadAndIndex e (NewSKBKeyringFile e (SKBFilenameForUser e un)) of
                  (f, err) \<Rightarrow>
                    if err = None \<or> os_IsNotExist err
                    then (k\<lparr>skbMap := (skbMap k)(un \<mapsto> Some f)\<rparr>, (Some f, None),
                          [EvLock, EvMapRead un, EvSKBLoadAndIndex (SKBFilenameForUser e un),
                           EvMapWrite un, EvUnlock])
                    else (k, (Some f, err),
                          [EvLock, EvMapRead un, EvSKBLoadAndIndex (SKBFilenameForUser e un),
                           EvUnlock])))"

text \<open>
  The cache states that the code of this file can produce: \<open>NewKeyrings\<close> makes the
  map, and \<open>LoadSKBKeyring\<close> is the only function that writes to it.
\<close>

inductive reachable :: "'f Keyrings \<Rightarrow> bool" where
  reachable_new: "reachable (NewKeyrings pubs secs gpgKeyring)"
| reachable_LoadSKBKeyring: "reachable k \<Longrightarrow> reachable (fst (LoadSKBKeyring e k un))"
| reachable_Load: "reachable k \<Longrightarrow> reachable (fst (Keyrings_Load s k))"

subsection \<open>The secret key request and its resolution\<close>

text \<open>\<^verbatim>\<open>SecretKeyArg\<close>; \<open>'u\<close> is the type \<^verbatim>\<open>User\<close>. The field \<^verbatim>\<open>Ui\<close> is only
  handed on by \<^verbatim>\<open>GetSecretKey\<close> and is left out; \<open>All_flag\<close> is the field \<^verbatim>\<open>All\<close>.\<close>

record 'u SecretKeyArg =
  All_flag :: bool
  DeviceKey :: bool
  SyncedPGPKey :: bool
  SearchKey :: bool
  Reason :: string
  Me :: "'u option"

definition UseDeviceKey :: "'u SecretKeyArg \<Rightarrow> bool" where
  "UseDeviceKey s = (All_flag s \<or> DeviceKey s)"

definition SearchForKey :: "'u SecretKeyArg \<Rightarrow> bool" where
  "SearchForKey s = (All_flag s \<or> SearchKey s)"

definition UseSyncedPGPKey :: "'u SecretKeyArg \<Rightarrow> bool" where
  "UseSyncedPGPKey s = (All_flag s \<or> SyncedPGPKey s)"

text \<open>
  The collaborators of the resolution, none of them code of this file: \<open>'c\<close> is
  \<^verbatim>\<open>ComputedKeyFamily\<close>, \<open>'s\<close> is \<^verbatim>\<open>SKB\<close> (a locked secret key). \<open>user_name\<close> reads
  the field \<^verbatim>\<open>name\<close> of a user. A function that returns a value and an error in Go
  returns the pair here.
\<close>

record ('u, 'c, 'f, 's) collab =
  LoadMe :: "'u option \<times> error option"
  user_name :: "'u \<Rightarrow> string"
  GetComputedKeyFamily :: "'u \<Rightarrow> 'c option"
  GetActiveSibkeyKidForCurrentDevice :: "'c \<Rightarrow> KID option \<times> error option"
  LookupByKid :: "'f \<Rightarrow> KID \<Rightarrow> 's option"
  SearchWithComputedKeyFamily :: "'f \<Rightarrow> 'c \<Rightarrow> 's option"
  GetSyncedSecretKey :: "'u \<Rightarrow> 's option \<times> error option"

text \<open>
  The device-key step of \<open>GetLockedLocalSecretKey\<close>: the key found and the calls made.
\<close>

definition device_key_step ::
  "('u, 'c, 'f, 's) collab \<Rightarrow> 'u SecretKeyArg \<Rightarrow> 'f \<Rightarrow> 'c \<Rightarrow> 's option \<times> event list" where
  "device_key_step c ska keyring ckf =
     (if \<not> UseDeviceKey ska then (None, [])
      else (case GetActiveSibkeyKidForCurrentDevice c ckf of (kid, err) \<Rightarrow>
              if err \<noteq> None then (None, [EvGetActiveSibkeyKidForCurrentDevice])
              else (case kid of
                      Some kd \<Rightarrow>
                        (LookupByKid c keyring kd,
                         [EvGetActiveSibkeyKidForCurrentDevice, EvLookupByKid kd])
                    | None \<Rightarrow> (None, [EvGetActiveSibkeyKidForCurrentDevice]))))"

text \<open>
  \<open>GetLockedLocalSecretKey\<close> dereferences \<^verbatim>\<open>ska.Me\<close> first: with a nil subject the
  code panics, which is the result \<open>None\<close> here. Otherwise the result is the keyrings
  (the cache may have grown), the key found or nil, and the calls.
\<close>

definition GetLockedLocalSecretKey ::
  "'f skbenv \<Rightarrow> ('u, 'c, 'f, 's) collab \<Rightarrow> 'f Keyrings \<Rightarrow> 'u SecretKeyArg \<Rightarrow>
     ('f Keyrings \<times> 's option \<times> event list) option" where
  "GetLockedLocalSecretKey e c k ska =
     (case Me ska of
        None \<Rightarrow> None
      | Some me \<Rightarrow>
          (case LoadSKBKeyring e k (user_name c me) of (k', (keyring, err), evs) \<Rightarrow>
             if err \<noteq> None then Some (k', None, evs)
             else (case keyring of
                     None \<Rightarrow> Some (k', None, evs)
                   | Some keyring \<Rightarrow>
                       (case GetComputedKeyFamily c me of
                          None \<Rightarrow> Some (k', None, evs @ [EvGetComputedKeyFamily])
                        | Some ckf \<Rightarrow>
                            (case device_key_step c ska keyring ckf of (ret, evs_d) \<Rightarrow>
                               if ret = None \<and> SearchForKey ska
                               then Some (k', SearchWithComputedKeyFamily c keyring ckf,
                                          evs @ [EvGetComputedKeyFamily] @ evs_d @
                                          [EvSearchWithComputedKeyFamily])
                               else Some (k', ret,
                                          evs @ [EvGetComputedKeyFamily] @ evs_d))))))"

text \<open>
  \<open>GetSecretKeyLocked\<close> returns \<open>None\<close> where the code panics (\<^verbatim>\<open>LoadMe\<close> has
  returned neither a user nor an error, and \<open>GetLockedLocalSecretKey\<close> dereferences
  the nil subject), and otherwise the keyrings, the triple \<open>(ret, which, err)\<close> and
  the calls. \<^verbatim>\<open>which\<close> is assigned in one place only, on the synced-key path.
\<close>

definition GetSecretKeyLocked ::
  "'f skbenv \<Rightarrow> ('u, 'c, 'f, 's) collab \<Rightarrow> 'f Keyrings \<Rightarrow> 'u SecretKeyArg \<Rightarrow>
     ('f Keyrings \<times> ('s option \<times> string \<times> error option) \<times> event list) option" where
  "GetSecretKeyLocked e c k ska =
     (case (case Me ska of
              None \<Rightarrow> (case LoadMe c of (me, err) \<Rightarrow> (me, err, [EvLoadMe]))
            | Some me \<Rightarrow> (Some me, None, [])) of
        (me, err, evs0) \<Rightarrow>
          if err \<noteq> None then Some (k, (None, [], err), evs0)
          else (case (me, GetLockedLocalSecretKey e c k (ska\<lparr>Me := me\<rparr>)) of
                  (Some me, Some (k', ret, evs1)) \<Rightarrow>
                    if ret \<noteq> None then Some (k', (ret, [], None), evs0 @ evs1)
                    else if \<not> UseSyncedPGPKey ska
                    then Some (k', (None, [], Some NoSecretKeyError), evs0 @ evs1)
                    else (case GetSyncedSecretKey c me of (ret2, err2) \<Rightarrow>
                            if err2 \<noteq> None
                            then Some (k', (ret2, [], err2),
                                       evs0 @ evs1 @ [EvGetSyncedSecretKey])
                            else if ret2 \<noteq> None
                            then Some (k', (ret2, ''your Keybase.io passphrase'', None),
                                       evs0 @ evs1 @ [EvGetSyncedSecretKey])
                            else Some (k', (None, [], Some NoSecretKeyError),
                                       evs0 @ evs1 @ [EvGetSyncedSecretKey]))
                | _ \<Rightarrow> None))"

section \<open>Notions used to state the properties\<close>

text \<open>
  The public keys that \<open>Index\<close> registers for an entity: its primary key, when there
  is one, and the public key of every subkey that has one. \<open>entity_ids\<close> and
  \<open>entity_fps\<close> are their identifiers and fingerprints.
\<close>

definition entity_keys :: "Entity \<Rightarrow> pubkey list" where
  "entity_keys e =
     (case PrimaryKey e of None \<Rightarrow> [] | Some pk \<Rightarrow> [pk]) @
     List.map_filter sub_PublicKey (Subkeys e)"

definition entity_ids :: "Entity \<Rightarrow> string set" where
  "entity_ids e = KeyIdString ` set (entity_keys e)"

definition entity_fps :: "Entity \<Rightarrow> PgpFingerprint set" where
  "entity_fps e = Fingerprint ` set (entity_keys e)"




text \<open>
  The result and the calls of a function that returns \<open>None\<close> where the code panics.
\<close>

definition result_of :: "('k \<times> 'r \<times> event list) option \<Rightarrow> 'r option" where
  "result_of r = map_option (\<lambda>(k, res, calls). res) r"

definition calls_of :: "('k \<times> 'r \<times> event list) option \<Rightarrow> event list" where
  "calls_of r = (case r of None \<Rightarrow> [] | Some (k, res, calls) \<Rightarrow> calls)"

section \<open>Concrete inputs\<close>

text \<open>
  A keyring file with two entities that carry the same subkey; only the second entity
  has private key material of its own.
\<close>

definition pk_P1 :: pubkey where
  "pk_P1 = \<lparr>KeyIdString = ''A1'', Fingerprint = [0xA1]\<rparr>"

definition pk_P2 :: pubkey where
  "pk_P2 = \<lparr>KeyIdString = ''B2'', Fingerprint = [0xB2]\<rparr>"

definition pk_S :: pubkey where
  "pk_S = \<lparr>KeyIdString = ''C3'', Fingerprint = [0xC3]\<rparr>"

definition sub_S :: Subkey where
  "sub_S = \<lparr>sub_PublicKey = Some pk_S, sub_PrivateKey = Some (PrivKey 3)\<rparr>"

definition ent_A :: Entity where
  "ent_A = \<lparr>PrimaryKey = Some pk_P1, PrivateKey = None, Identities = [''alice''],
            Subkeys = [sub_S]\<rparr>"

definition ent_B :: Entity where
  "ent_B = \<lparr>PrimaryKey = Some pk_P2, PrivateKey = Some (PrivKey 2), Identities = [''bob''],
            Subkeys = [sub_S]\<rparr>"

definition file_AB :: KeyringFile where
  "file_AB = \<lparr>filename = ''pubring.gpg'', Entities = [ent_A, ent_B], isPublic = True,
              indexId = Map.empty, indexFingerprint = Map.empty\<rparr>"

text \<open>
  An operating system and library for the examples: \<^verbatim>\<open>pubring.gpg\<close> opens and parses to
  the two entities above, \<^verbatim>\<open>locked.gpg\<close> cannot be opened, and no other file exists.
  The three lookups of the library find one key, \<open>key_S\<close>, in a list that holds \<open>ent_B\<close>.
\<close>

definition key_S :: Key where
  "key_S = \<lparr>key_Entity = Some ent_B, key_PublicKey = Some pk_S,
            key_PrivateKey = Some (PrivKey 3)\<rparr>"

definition sys_X :: sys where
  "sys_X =
     \<lparr>os_Open = (\<lambda>fn. if fn = ''pubring.gpg'' then (Some ''bytes'', None)
                      else if fn = ''locked.gpg''
                      then (None, Some (OtherError ''permission denied''))
                      else (None, Some ErrNotExist)),
      ReadKeyRing = (\<lambda>h. ([ent_A, ent_B], None)),
      el_KeysById = (\<lambda>el kid. if kid = 0xC3 \<and> ent_B \<in> set el then [key_S] else []),
      el_KeysByIdUsage =
        (\<lambda>el kid usage. if kid = 0xC3 \<and> ent_B \<in> set el then [key_S] else []),
      el_DecryptionKeys = (\<lambda>el. if ent_B \<in> set el then [key_S] else [])\<rparr>"


definition file_secret :: KeyringFile where
  "file_secret = \<lparr>filename = ''secring.gpg'', Entities = [ent_A, ent_B], isPublic = False,
                  indexId = Map.empty, indexFingerprint = Map.empty\<rparr>"

definition keyrings_indexed :: "unit Keyrings" where
  "keyrings_indexed =
     \<lparr>Public = [], Secret = [fst (Index file_secret)], skbMap = Map.empty\<rparr>"

text \<open>
  A keyring file that holds two entities from an earlier load and whose path no longer
  exists.
\<close>

definition file_stale :: KeyringFile where
  "file_stale = \<lparr>filename = ''absent.gpg'', Entities = [ent_A, ent_B], isPublic = True,
                 indexId = Map.empty, indexFingerprint = Map.empty\<rparr>"

definition file_locked :: KeyringFile where
  "file_locked = \<lparr>filename = ''locked.gpg'', Entities = [], isPublic = False,
                  indexId = Map.empty, indexFingerprint = Map.empty\<rparr>"

definition file_pub :: KeyringFile where
  "file_pub = \<lparr>filename = ''pubring.gpg'', Entities = [], isPublic = True,
               indexId = Map.empty, indexFingerprint = Map.empty\<rparr>"

definition keyrings_secret_locked :: "unit Keyrings" where
  "keyrings_secret_locked =
     \<lparr>Public = [file_pub], Secret = [file_locked], skbMap = Map.empty\<rparr>"

definition keyrings_public_locked :: "unit Keyrings" where
  "keyrings_public_locked =
     \<lparr>Public = [file_pub, file_locked, file_pub], Secret = [file_pub], skbMap = Map.empty\<rparr>"

text \<open>
  A per-user secret keyring is a file name and the keys it holds (numbers). The file
  of \<^verbatim>\<open>alice\<close> loads with the keys 11 and 12, the file of \<^verbatim>\<open>bob\<close> cannot be read, and
  no other file exists.
\<close>

type_synonym skbfile = "string \<times> nat list"

definition env_X :: "skbfile skbenv" where
  "env_X =
     \<lparr>GetSecretKeyringTemplate = ''/keys/%u.skb'',
      NewSKBKeyringFile = (\<lambda>fn. (fn, [])),
      skb_LoadAndIndex =
        (\<lambda>f. if fst f = ''/keys/alice.skb'' then ((fst f, [11, 12]), None)
              else if fst f = ''/keys/bob.skb'' then (f, Some (OtherError ''file is locked''))
              else (f, Some ErrNotExist))\<rparr>"

text \<open>
  Collaborators for \<^verbatim>\<open>alice\<close>: her device key is key 11 of her keyring, the search
  with her computed key family finds key 12, and the server holds the synced key 13.
  \<open>collab_no_synced\<close> is the same without a synced key.
\<close>

definition collab_X :: "(string, nat, skbfile, nat) collab" where
  "collab_X =
     \<lparr>LoadMe = (Some ''alice'', None),
      user_name = (\<lambda>u. u),
      GetComputedKeyFamily = (\<lambda>u. Some 7),
      GetActiveSibkeyKidForCurrentDevice = (\<lambda>ckf. (Some [0x2A], None)),
      LookupByKid = (\<lambda>f kid. if kid = [0x2A] \<and> 11 \<in> set (snd f) then Some 11 else None),
      SearchWithComputedKeyFamily = (\<lambda>f ckf. if 12 \<in> set (snd f) then Some 12 else None),
      GetSyncedSecretKey = (\<lambda>u. (Some 13, None))\<rparr>"

definition collab_no_synced :: "(string, nat, skbfile, nat) collab" where
  "collab_no_synced = collab_X\<lparr>GetSyncedSecretKey := (\<lambda>u. (None, None))\<rparr>"

definition ska_all :: "string SecretKeyArg" where
  "ska_all = \<lparr>All_flag = True, DeviceKey = False, SyncedPGPKey = False, SearchKey = False,
               Reason = ''signing'', Me = Some ''alice''\<rparr>"

definition ska_synced_only :: "string SecretKeyArg" where
  "ska_synced_only = \<lparr>All_flag = False, DeviceKey = False, SyncedPGPKey = True, SearchKey = False,
                       Reason = ''signing'', Me = None\<rparr>"

definition keyrings_new :: "skbfile Keyrings" where
  "keyrings_new = NewKeyrings [] [] False"

definition keyrings_alice :: "skbfile Keyrings" where
  "keyrings_alice = fst (LoadSKBKeyring env_X keyrings_new ''alice'')"

section \<open>Properties\<close>

subsection \<open>Index\<close>

lemma index_key_fst:
  "fst (index_key e p ix) i =
     (if i \<in> KeyIdString ` set_option p then Some (Some e) else fst ix i)"
  by (cases p; cases ix) auto

lemma index_key_snd:
  "snd (index_key e p ix) i =
     (if i \<in> Fingerprint ` set_option p then Some (Some e) else snd ix i)"
  by (cases p; cases ix) auto

lemma fold_index_key_fst:
  "fst (fold (\<lambda>sk. index_key e (sub_PublicKey sk)) sks ix) i =
     (if i \<in> KeyIdString ` set (List.map_filter sub_PublicKey sks) then Some (Some e) else fst ix i)"
proof (induction sks arbitrary: ix)
  case Nil
  then show ?case by simp
next
  case (Cons sk sks)
  then show ?case
    by (cases "sub_PublicKey sk") (auto simp: index_key_fst)
qed

lemma fold_index_key_snd:
  "snd (fold (\<lambda>sk. index_key e (sub_PublicKey sk)) sks ix) i =
     (if i \<in> Fingerprint ` set (List.map_filter sub_PublicKey sks) then Some (Some e) else snd ix i)"
proof (induction sks arbitrary: ix)
  case Nil
  then show ?case by simp
next
  case (Cons sk sks)
  then show ?case
    by (cases "sub_PublicKey sk") (auto simp: index_key_snd)
qed

lemma index_entity_fst:
  "fst (index_entity e ix) i = (if i \<in> entity_ids e then Some (Some e) else fst ix i)"
  by (cases "PrimaryKey e")
     (auto simp: index_entity_def entity_ids_def entity_keys_def fold_index_key_fst index_key_fst)

lemma index_entity_snd:
  "snd (index_entity e ix) i = (if i \<in> entity_fps e then Some (Some e) else snd ix i)"
  by (cases "PrimaryKey e")
     (auto simp: index_entity_def entity_fps_def entity_keys_def fold_index_key_snd index_key_snd)

lemma fold_index_entity_fst_last:
  "i \<in> entity_ids e \<Longrightarrow> \<forall>e'\<in>set post. i \<notin> entity_ids e' \<Longrightarrow>
   fst (fold index_entity (pre @ e # post) ix) i = Some (Some e)"
proof (induction post rule: rev_induct)
  case Nil
  then show ?case by (simp add: index_entity_fst)
next
  case (snoc x xs)
  then show ?case
    by (simp add: index_entity_fst flip: append_Cons append_assoc)
qed

lemma fold_index_entity_snd_last:
  "i \<in> entity_fps e \<Longrightarrow> \<forall>e'\<in>set post. i \<notin> entity_fps e' \<Longrightarrow>
   snd (fold index_entity (pre @ e # post) ix) i = Some (Some e)"
proof (induction post rule: rev_induct)
  case Nil
  then show ?case by (simp add: index_entity_snd)
next
  case (snoc x xs)
  then show ?case
    by (simp add: index_entity_snd flip: append_Cons append_assoc)
qed

lemma fold_index_entity_fst_owner:
  "\<exists>e\<in>set es. i \<in> entity_ids e \<Longrightarrow>
   \<exists>e'\<in>set es. fst (fold index_entity es ix) i = Some (Some e') \<and> i \<in> entity_ids e'"
  by (induction es rule: rev_induct) (auto simp: index_entity_fst)

lemma fold_index_entity_snd_owner:
  "\<exists>e\<in>set es. i \<in> entity_fps e \<Longrightarrow>
   \<exists>e'\<in>set es. snd (fold index_entity es ix) i = Some (Some e') \<and> i \<in> entity_fps e'"
  by (induction es rule: rev_induct) (auto simp: index_entity_snd)

lemma indexId_Index:
  "indexId (fst (Index k)) = fst (fold index_entity (Entities k) (Map.empty, Map.empty))"
  by (simp add: Index_def split: prod.splits)

lemma indexFingerprint_Index:
  "indexFingerprint (fst (Index k)) = snd (fold index_entity (Entities k) (Map.empty, Map.empty))"
  by (simp add: Index_def split: prod.splits)

lemma owned_key_in_entity_keys:
  "PrimaryKey e = Some pk \<or> (\<exists>sk\<in>set (Subkeys e). sub_PublicKey sk = Some pk) \<Longrightarrow>
   pk \<in> set (entity_keys e)"
  by (force simp: entity_keys_def map_filter_def image_iff split: option.splits)

text \<open>
  Claim C8, as amended. After \<open>Index\<close>, the identifier and the fingerprint of every
  primary key, and of every subkey that has public material, are indexed, and each
  looks up to an entity of the file that carries a key with that identifier
  (fingerprint): a whole entity, never a record made for the subkey. A later entity
  overwrites the entry of an earlier one, so the lookup gives the key's own entity
  whenever no entity behind it in the file carries the same identifier (fingerprint).
\<close>

theorem Index_resolves_to_owner:
  assumes ents: "Entities k = pre @ e # post"
    and own: "PrimaryKey e = Some pk \<or> (\<exists>sk\<in>set (Subkeys e). sub_PublicKey sk = Some pk)"
  shows "(\<exists>e'\<in>set (Entities k).
            indexId (fst (Index k)) (KeyIdString pk) = Some (Some e') \<and>
            KeyIdString pk \<in> entity_ids e')
       \<and> (\<exists>e'\<in>set (Entities k).
            indexFingerprint (fst (Index k)) (Fingerprint pk) = Some (Some e') \<and>
            Fingerprint pk \<in> entity_fps e')
       \<and> ((\<forall>e'\<in>set post. KeyIdString pk \<notin> entity_ids e') \<longrightarrow>
            indexId (fst (Index k)) (KeyIdString pk) = Some (Some e))
       \<and> ((\<forall>e'\<in>set post. Fingerprint pk \<notin> entity_fps e') \<longrightarrow>
            indexFingerprint (fst (Index k)) (Fingerprint pk) = Some (Some e))"
proof -
  have pk: "pk \<in> set (entity_keys e)"
    using own by (rule owned_key_in_entity_keys)
  have e_in: "e \<in> set (Entities k)"
    by (simp add: ents)
  have id_in: "KeyIdString pk \<in> entity_ids e"
    using pk by (simp add: entity_ids_def)
  have fp_in: "Fingerprint pk \<in> entity_fps e"
    using pk by (simp add: entity_fps_def)
  have a: "\<exists>e'\<in>set (Entities k).
            indexId (fst (Index k)) (KeyIdString pk) = Some (Some e') \<and>
            KeyIdString pk \<in> entity_ids e'"
    unfolding indexId_Index
    by (rule fold_index_entity_fst_owner) (use e_in id_in in blast)
  have b: "\<exists>e'\<in>set (Entities k).
            indexFingerprint (fst (Index k)) (Fingerprint pk) = Some (Some e') \<and>
            Fingerprint pk \<in> entity_fps e'"
    unfolding indexFingerprint_Index
    by (rule fold_index_entity_snd_owner) (use e_in fp_in in blast)
  have c: "(\<forall>e'\<in>set post. KeyIdString pk \<notin> entity_ids e') \<longrightarrow>
            indexId (fst (Index k)) (KeyIdString pk) = Some (Some e)"
    unfolding indexId_Index ents
    using fold_index_entity_fst_last [OF id_in] by blast
  have d: "(\<forall>e'\<in>set post. Fingerprint pk \<notin> entity_fps e') \<longrightarrow>
            indexFingerprint (fst (Index k)) (Fingerprint pk) = Some (Some e)"
    unfolding indexFingerprint_Index ents
    using fold_index_entity_snd_last [OF fp_in] by blast
  from a b c d show ?thesis by blast
qed

lemmas ex_defs = pk_P1_def pk_P2_def pk_S_def sub_S_def ent_A_def ent_B_def file_AB_def

lemma ex_ids:
  "entity_ids ent_A = {''A1'', ''C3''}" "entity_ids ent_B = {''B2'', ''C3''}"
  "entity_fps ent_A = {[0xA1], [0xC3]}" "entity_fps ent_B = {[0xB2], [0xC3]}"
  by (auto simp: entity_ids_def entity_fps_def entity_keys_def ex_defs)

text \<open>
  Claim C8 as stated fails where two entities of a file carry a subkey with the same
  identifier and fingerprint: \<open>ent_A\<close> owns \<open>sub_S\<close>, and both indexes resolve the
  subkey to \<open>ent_B\<close>, which stands behind \<open>ent_A\<close> in the file.
\<close>

theorem Index_shared_subkey_counterexample:
  "ent_A \<in> set (Entities file_AB) \<and> sub_S \<in> set (Subkeys ent_A) \<and>
   sub_PublicKey sub_S = Some pk_S \<and>
   indexId (fst (Index file_AB)) (KeyIdString pk_S) \<noteq> Some (Some ent_A) \<and>
   indexFingerprint (fst (Index file_AB)) (Fingerprint pk_S) \<noteq> Some (Some ent_A)"
  by (simp add: Index_def index_entity_def ex_defs)

text \<open>
  The primary key of \<open>ent_A\<close> resolves to \<open>ent_A\<close>; the shared subkey resolves to the
  last entity that carries it.
\<close>

theorem Index_resolves_to_owner_witness:
  "indexId (fst (Index file_AB)) ''A1'' = Some (Some ent_A) \<and>
   indexFingerprint (fst (Index file_AB)) [0xA1] = Some (Some ent_A) \<and>
   indexId (fst (Index file_AB)) ''C3'' = Some (Some ent_B) \<and>
   indexFingerprint (fst (Index file_AB)) [0xC3] = Some (Some ent_B)"
proof -
  have e1: "Entities file_AB = [] @ ent_A # [ent_B]"
    by (simp add: file_AB_def)
  have o1: "PrimaryKey ent_A = Some pk_P1 \<or> (\<exists>sk\<in>set (Subkeys ent_A). sub_PublicKey sk = Some pk_P1)"
    by (simp add: ent_A_def)
  have e2: "Entities file_AB = [ent_A] @ ent_B # []"
    by (simp add: file_AB_def)
  have o2: "PrimaryKey ent_B = Some pk_S \<or> (\<exists>sk\<in>set (Subkeys ent_B). sub_PublicKey sk = Some pk_S)"
    by (simp add: ent_B_def sub_S_def)
  have n1: "\<forall>e'\<in>set [ent_B]. KeyIdString pk_P1 \<notin> entity_ids e'"
    by (simp add: ex_ids) (simp add: pk_P1_def)
  have n2: "\<forall>e'\<in>set [ent_B]. Fingerprint pk_P1 \<notin> entity_fps e'"
    by (simp add: ex_ids) (simp add: pk_P1_def)
  from Index_resolves_to_owner [OF e1 o1] n1 n2 Index_resolves_to_owner [OF e2 o2]
  show ?thesis by (simp add: pk_P1_def pk_S_def)
qed

subsection \<open>The fan-out lookups\<close>







subsection \<open>FindKey\<close>

lemma FindKey_loop_secret:
  "FindKey_loop l fp True = Some e \<Longrightarrow> PrivateKey e \<noteq> None"
  by (induction l) (auto split: option.splits if_splits)

text \<open>
  Claim C4. An entity that \<open>FindKey\<close> returns for a secret lookup carries private key
  material, whatever the indexes of the secret files hold.
\<close>

theorem FindKey_secret_has_private_key:
  "FindKey k fp True = Some e \<Longrightarrow> PrivateKey e \<noteq> None"
  unfolding FindKey_def by (simp add: FindKey_loop_secret)

text \<open>
  The secret file of \<open>keyrings_indexed\<close> holds \<open>ent_A\<close>, which has no private key, and
  \<open>ent_B\<close>, which has one: the secret lookup skips the first and returns the second.
\<close>

lemma FindKey_skips_entity_without_private_key:
  "indexFingerprint (fst (Index file_secret)) [0xA1] = Some (Some ent_A) \<and>
   FindKey keyrings_indexed [0xA1] True = None"
  by (simp add: FindKey_def keyrings_indexed_def file_secret_def Index_def index_entity_def
      ex_defs)

theorem FindKey_secret_has_private_key_witness:
  "FindKey keyrings_indexed [0xB2] True = Some ent_B \<and> PrivateKey ent_B \<noteq> None"
proof -
  have h: "FindKey keyrings_indexed [0xB2] True = Some ent_B"
    by (simp add: FindKey_def keyrings_indexed_def file_secret_def Index_def index_entity_def
        ex_defs)
  from h FindKey_secret_has_private_key [OF h] show ?thesis by simp
qed

subsection \<open>Loading keyring files\<close>

text \<open>
  Claim C9, as amended. When the path of a keyring file does not exist, \<open>Load\<close> returns
  no error and does not change the file: the entity list is left as it was, which is
  empty for a file that has not been loaded before. The only call is the attempt to
  open the file.
\<close>

theorem Load_missing_file:
  "os_Open s (filename k) = (None, Some ErrNotExist) \<Longrightarrow>
   Load s k = (k, None, [EvOpen (filename k)]) \<and>
   Entities (fst (Load s k)) = Entities k"
  by (simp add: Load_def os_IsNotExist_def)

text \<open>
  Claim C9 as stated fails on a file that holds entities from an earlier load: its
  path does not exist, \<open>Load\<close> returns no error, and the entity list is not empty
  afterwards.
\<close>

theorem Load_missing_file_counterexample:
  "os_Open sys_X (filename file_stale) = (None, Some ErrNotExist) \<and>
   fst (snd (Load sys_X file_stale)) = None \<and>
   Entities (fst (Load sys_X file_stale)) \<noteq> []"
  by (simp add: Load_def os_IsNotExist_def sys_X_def file_stale_def)

text \<open>
  A file that \<open>MakeKeyrings\<close> has just built, at a path that does not exist: no error,
  and the entity list is still empty.
\<close>

theorem Load_missing_file_witness:
  "os_Open sys_X (filename (hd (MakeKeyrings [''absent.gpg''] True))) = (None, Some ErrNotExist) \<and>
   fst (snd (Load sys_X (hd (MakeKeyrings [''absent.gpg''] True)))) = None \<and>
   Entities (fst (Load sys_X (hd (MakeKeyrings [''absent.gpg''] True)))) = []"
proof -
  have h: "os_Open sys_X (filename (hd (MakeKeyrings [''absent.gpg''] True))) =
             (None, Some ErrNotExist)"
    by (simp add: sys_X_def MakeKeyrings_def)
  have e: "Entities (hd (MakeKeyrings [''absent.gpg''] True)) = []"
    by (simp add: MakeKeyrings_def)
  from h e Load_missing_file [OF h] show ?thesis by simp
qed

lemma LoadKeyrings_ok_prefix:
  "\<forall>p\<in>set pre. fst (snd (LoadAndIndex s p)) = None \<Longrightarrow>
   LoadKeyrings s (pre @ rest) =
     (map (\<lambda>p. fst (LoadAndIndex s p)) pre @ fst (LoadKeyrings s rest),
      fst (snd (LoadKeyrings s rest)),
      concat (map (\<lambda>p. snd (snd (LoadAndIndex s p))) pre) @ snd (snd (LoadKeyrings s rest)))"
  by (induction pre) (auto split: prod.splits)

lemma LoadKeyrings_all_ok:
  "\<forall>p\<in>set v. fst (snd (LoadAndIndex s p)) = None \<Longrightarrow> fst (snd (LoadKeyrings s v)) = None"
  using LoadKeyrings_ok_prefix [of v s "[]"] by simp

lemma LoadKeyrings_first_failure:
  assumes "\<forall>p\<in>set pre. fst (snd (LoadAndIndex s p)) = None"
    and "LoadAndIndex s f = (f', Some err, evs)"
  shows "LoadKeyrings s (pre @ f # post) =
     (map (\<lambda>p. fst (LoadAndIndex s p)) pre @ f' # post, Some err,
      concat (map (\<lambda>p. snd (snd (LoadAndIndex s p))) pre) @ evs)"
  using assms by (simp add: LoadKeyrings_ok_prefix)

text \<open>
  Claim C7. When the public files before \<open>f\<close> load and \<open>f\<close> fails, \<open>Keyrings.Load\<close>
  returns the error of \<open>f\<close>; the public files behind \<open>f\<close> and all secret files are
  left as they were, and the only calls are those of the files up to \<open>f\<close>. When every
  public file loads, \<open>Keyrings.Load\<close> returns no error, whatever the loading of the
  secret files returns.
\<close>

theorem Keyrings_Load_public_hard_secret_swallowed:
  "(Public k = pre @ f # post \<and> (\<forall>p\<in>set pre. fst (snd (LoadAndIndex s p)) = None) \<and>
    LoadAndIndex s f = (f', Some err, evs) \<longrightarrow>
      Keyrings_Load s k =
        (k\<lparr>Public := map (\<lambda>p. fst (LoadAndIndex s p)) pre @ f' # post\<rparr>, Some err,
         concat (map (\<lambda>p. snd (snd (LoadAndIndex s p))) pre) @ evs) \<and>
      Secret (fst (Keyrings_Load s k)) = Secret k)
   \<and> ((\<forall>p\<in>set (Public k). fst (snd (LoadAndIndex s p)) = None) \<longrightarrow>
        fst (snd (Keyrings_Load s k)) = None \<and>
        Secret (fst (Keyrings_Load s k)) = fst (LoadKeyrings s (Secret k)))"
proof (intro conjI impI)
  assume a: "Public k = pre @ f # post \<and> (\<forall>p\<in>set pre. fst (snd (LoadAndIndex s p)) = None) \<and>
    LoadAndIndex s f = (f', Some err, evs)"
  then have lk: "LoadKeyrings s (Public k) =
     (map (\<lambda>p. fst (LoadAndIndex s p)) pre @ f' # post, Some err,
      concat (map (\<lambda>p. snd (snd (LoadAndIndex s p))) pre) @ evs)"
    by (simp add: LoadKeyrings_first_failure)
  show "Keyrings_Load s k =
        (k\<lparr>Public := map (\<lambda>p. fst (LoadAndIndex s p)) pre @ f' # post\<rparr>, Some err,
         concat (map (\<lambda>p. snd (snd (LoadAndIndex s p))) pre) @ evs)"
    by (simp add: Keyrings_Load_def lk)
  then show "Secret (fst (Keyrings_Load s k)) = Secret k"
    by simp
next
  assume a: "\<forall>p\<in>set (Public k). fst (snd (LoadAndIndex s p)) = None"
  then have ok: "fst (snd (LoadKeyrings s (Public k))) = None"
    by (rule LoadKeyrings_all_ok)
  then show "fst (snd (Keyrings_Load s k)) = None"
    by (auto simp: Keyrings_Load_def split: prod.splits)
  from ok show "Secret (fst (Keyrings_Load s k)) = fst (LoadKeyrings s (Secret k))"
    by (auto simp: Keyrings_Load_def split: prod.splits)
qed

lemma LoadAndIndex_file_locked:
  "LoadAndIndex sys_X file_locked =
     (file_locked, Some (OtherError ''permission denied''), [EvOpen ''locked.gpg''])"
  by (simp add: LoadAndIndex_def Load_def sys_X_def file_locked_def os_IsNotExist_def)

lemma LoadAndIndex_file_pub:
  "fst (snd (LoadAndIndex sys_X file_pub)) = None"
  "snd (snd (LoadAndIndex sys_X file_pub)) = [EvOpen ''pubring.gpg'', EvReadKeyRing ''pubring.gpg'']"
  by (simp_all add: LoadAndIndex_def Load_def Index_def sys_X_def file_pub_def os_IsNotExist_def
      split: prod.splits)

text \<open>
  With \<^verbatim>\<open>locked.gpg\<close> as the second public file, the error is returned, the third
  public file and the secret file are not opened; with \<^verbatim>\<open>locked.gpg\<close> as the secret
  file, its error is dropped.
\<close>

theorem Keyrings_Load_public_hard_secret_swallowed_witness:
  "fst (snd (Keyrings_Load sys_X keyrings_public_locked)) = Some (OtherError ''permission denied'')
   \<and> snd (snd (Keyrings_Load sys_X keyrings_public_locked)) =
       [EvOpen ''pubring.gpg'', EvReadKeyRing ''pubring.gpg'', EvOpen ''locked.gpg'']
   \<and> Secret (fst (Keyrings_Load sys_X keyrings_public_locked)) = [file_pub]
   \<and> fst (snd (LoadKeyrings sys_X (Secret keyrings_secret_locked))) =
       Some (OtherError ''permission denied'')
   \<and> fst (snd (Keyrings_Load sys_X keyrings_secret_locked)) = None"
proof -
  have p1: "Public keyrings_public_locked = [file_pub] @ file_locked # [file_pub]"
    by (simp add: keyrings_public_locked_def)
  have p2: "\<forall>p\<in>set [file_pub]. fst (snd (LoadAndIndex sys_X p)) = None"
    by (simp add: LoadAndIndex_file_pub)
  have p3: "\<forall>p\<in>set (Public keyrings_secret_locked). fst (snd (LoadAndIndex sys_X p)) = None"
    by (simp add: keyrings_secret_locked_def LoadAndIndex_file_pub)
  have s: "fst (snd (LoadKeyrings sys_X (Secret keyrings_secret_locked))) =
       Some (OtherError ''permission denied'')"
    by (simp add: keyrings_secret_locked_def LoadAndIndex_file_locked)
  have q: "Secret keyrings_public_locked = [file_pub]"
    by (simp add: keyrings_public_locked_def)
  from Keyrings_Load_public_hard_secret_swallowed
         [of keyrings_public_locked "[file_pub]" file_locked "[file_pub]" sys_X file_locked
           "OtherError ''permission denied''" "[EvOpen ''locked.gpg'']"]
       Keyrings_Load_public_hard_secret_swallowed
         [of keyrings_secret_locked "[]" file_pub "[]" sys_X file_pub NoUsernameError "[]"]
       p1 p2 p3 s q LoadAndIndex_file_locked LoadAndIndex_file_pub
  show ?thesis by simp
qed

subsection \<open>The per-user secret keyring cache\<close>

lemma env_X_simps:
  "NewSKBKeyringFile env_X fn = (fn, [])"
  "skb_LoadAndIndex env_X (''/keys/alice.skb'', bs) = ((''/keys/alice.skb'', [11, 12]), None)"
  "skb_LoadAndIndex env_X (''/keys/bob.skb'', bs) =
     ((''/keys/bob.skb'', bs), Some (OtherError ''file is locked''))"
  "skb_LoadAndIndex env_X (''/keys/carol.skb'', bs) = ((''/keys/carol.skb'', bs), Some ErrNotExist)"
  by (simp_all add: env_X_def)

lemma SKBFilenameForUser_env_X:
  "SKBFilenameForUser env_X ''alice'' = ''/keys/alice.skb''"
  "SKBFilenameForUser env_X ''bob'' = ''/keys/bob.skb''"
  "SKBFilenameForUser env_X ''carol'' = ''/keys/carol.skb''"
  by (simp_all add: SKBFilenameForUser_def env_X_def)

lemma skbMap_keyrings_new: "skbMap keyrings_new = Map.empty"
  by (simp add: keyrings_new_def NewKeyrings_def)

lemma LoadSKBKeyring_alice:
  "LoadSKBKeyring env_X keyrings_new ''alice'' =
     (keyrings_new\<lparr>skbMap := [''alice'' \<mapsto> Some (''/keys/alice.skb'', [11, 12])]\<rparr>,
      (Some (''/keys/alice.skb'', [11, 12]), None),
      [EvLock, EvMapRead ''alice'', EvSKBLoadAndIndex ''/keys/alice.skb'', EvMapWrite ''alice'',
       EvUnlock])"
  by (simp add: LoadSKBKeyring_def skbMap_keyrings_new SKBFilenameForUser_env_X env_X_simps)

lemma skbMap_Keyrings_Load: "skbMap (fst (Keyrings_Load s k)) = skbMap k"
  by (simp add: Keyrings_Load_def split: prod.splits)

lemma skbMap_LoadSKBKeyring_cases:
  "skbMap (fst (LoadSKBKeyring e k un)) = skbMap k \<or>
   (un \<noteq> [] \<and> (\<exists>f. skbMap (fst (LoadSKBKeyring e k un)) = (skbMap k)(un \<mapsto> Some f)))"
  by (auto simp: LoadSKBKeyring_def split: option.splits prod.splits)

lemma reachable_invariant:
  "reachable k \<Longrightarrow> skbMap k [] = None \<and> (\<forall>u. skbMap k u \<noteq> Some None)"
proof (induction rule: reachable.induct)
  case (reachable_new pubs secs gpgKeyring)
  then show ?case by (simp add: NewKeyrings_def)
next
  case (reachable_LoadSKBKeyring k e un)
  with skbMap_LoadSKBKeyring_cases [of e k un] show ?case
    by (auto split: if_splits)
next
  case (reachable_Load k s)
  then show ?case by (simp add: skbMap_Keyrings_Load)
qed

lemma LoadSKBKeyring_empty_username:
  "skbMap k [] = None \<or> skbMap k [] = Some None \<Longrightarrow>
   LoadSKBKeyring e k [] = (k, (None, Some NoUsernameError), [EvLock, EvMapRead [], EvUnlock])"
  by (auto simp: LoadSKBKeyring_def)

lemma reachable_keyrings_alice: "reachable keyrings_alice"
  unfolding keyrings_alice_def keyrings_new_def
  by (intro reachable.intros)

text \<open>
  Claim C10. In every state of the cache that is reachable through \<open>LoadSKBKeyring\<close>,
  the map has no entry for the empty username and maps no username to a nil file; so
  the lookup that \<open>LoadSKBKeyring\<close> makes before it tests for the empty username
  returns no file for the empty username.
\<close>

theorem reachable_cache_invariant:
  "reachable k \<Longrightarrow>
   skbMap k [] = None \<and> (\<forall>u. skbMap k u \<noteq> Some None) \<and>
   (\<forall>e. fst (fst (snd (LoadSKBKeyring e k []))) = None)"
proof -
  assume r: "reachable k"
  then have inv: "skbMap k [] = None \<and> (\<forall>u. skbMap k u \<noteq> Some None)"
    by (rule reachable_invariant)
  then have "\<forall>e. LoadSKBKeyring e k [] = (k, (None, Some NoUsernameError), [EvLock, EvMapRead [], EvUnlock])"
    by (simp add: LoadSKBKeyring_empty_username)
  with inv show ?thesis by simp
qed

text \<open>A reachable state with one cached entry.\<close>

theorem reachable_cache_invariant_witness:
  "skbMap keyrings_alice ''alice'' = Some (Some (''/keys/alice.skb'', [11, 12])) \<and>
   skbMap keyrings_alice [] = None \<and>
   fst (fst (snd (LoadSKBKeyring env_X keyrings_alice []))) = None"
proof -
  have a: "skbMap keyrings_alice ''alice'' = Some (Some (''/keys/alice.skb'', [11, 12]))"
    by (simp add: keyrings_alice_def LoadSKBKeyring_alice)
  from a reachable_cache_invariant [OF reachable_keyrings_alice] show ?thesis by simp
qed

text \<open>
  Claim C6, as amended. In every reachable state of the cache, \<open>LoadSKBKeyring\<close> with
  the empty username returns \<open>NoUsernameError\<close> and no file, loads no file and leaves
  the cache map as it is; it takes the lock and looks the empty username up in the
  map before it tests the username.
\<close>

theorem LoadSKBKeyring_empty_username_reachable:
  "reachable k \<Longrightarrow>
   LoadSKBKeyring e k [] = (k, (None, Some NoUsernameError), [EvLock, EvMapRead [], EvUnlock])"
  by (simp add: LoadSKBKeyring_empty_username reachable_invariant)

theorem LoadSKBKeyring_empty_username_witness:
  "LoadSKBKeyring env_X keyrings_alice [] =
     (keyrings_alice, (None, Some NoUsernameError), [EvLock, EvMapRead [], EvUnlock])"
  using LoadSKBKeyring_empty_username_reachable [OF reachable_keyrings_alice] by simp

text \<open>
  Claim C6 as stated fails on the new keyrings: the call with the empty username
  takes the lock and reads the map.
\<close>

theorem LoadSKBKeyring_empty_username_counterexample:
  "EvLock \<in> set (snd (snd (LoadSKBKeyring env_X keyrings_new []))) \<and>
   EvMapRead [] \<in> set (snd (snd (LoadSKBKeyring env_X keyrings_new [])))"
  by (simp add: LoadSKBKeyring_def skbMap_keyrings_new)

text \<open>
  Claim C5. For a non-empty username without a cached file: when the load fails with
  an error that is not a file-does-not-exist error, \<open>LoadSKBKeyring\<close> returns that
  error and leaves the map as it was, and the next call for the username loads the
  file again, whatever the environment; when the load fails because the file does not
  exist, the file is stored under the username and no error is returned. A cached
  file is returned as it is, without a load and without a change of the map, and no
  call changes the entry of another username.
\<close>

theorem LoadSKBKeyring_load_outcomes:
  assumes "un \<noteq> []"
  shows "((\<forall>g. skbMap k un \<noteq> Some (Some g)) \<and>
          skb_LoadAndIndex e (NewSKBKeyringFile e (SKBFilenameForUser e un)) = (f, Some err) \<and>
          err \<noteq> ErrNotExist \<longrightarrow>
            LoadSKBKeyring e k un =
              (k, (Some f, Some err),
               [EvLock, EvMapRead un, EvSKBLoadAndIndex (SKBFilenameForUser e un), EvUnlock]) \<and>
            (\<forall>e'. EvSKBLoadAndIndex (SKBFilenameForUser e' un) \<in>
                    set (snd (snd (LoadSKBKeyring e' (fst (LoadSKBKeyring e k un)) un)))))
       \<and> ((\<forall>g. skbMap k un \<noteq> Some (Some g)) \<and>
          skb_LoadAndIndex e (NewSKBKeyringFile e (SKBFilenameForUser e un)) =
            (f, Some ErrNotExist) \<longrightarrow>
            LoadSKBKeyring e k un =
              (k\<lparr>skbMap := (skbMap k)(un \<mapsto> Some f)\<rparr>, (Some f, None),
               [EvLock, EvMapRead un, EvSKBLoadAndIndex (SKBFilenameForUser e un),
                EvMapWrite un, EvUnlock]))
       \<and> (skbMap k un = Some (Some g) \<longrightarrow>
            LoadSKBKeyring e k un = (k, (Some g, None), [EvLock, EvMapRead un, EvUnlock]))
       \<and> (\<forall>u. u \<noteq> un \<longrightarrow> skbMap (fst (LoadSKBKeyring e k un)) u = skbMap k u)"
proof (intro conjI impI)
  assume a: "(\<forall>g. skbMap k un \<noteq> Some (Some g)) \<and>
          skb_LoadAndIndex e (NewSKBKeyringFile e (SKBFilenameForUser e un)) = (f, Some err) \<and>
          err \<noteq> ErrNotExist"
  with assms show r: "LoadSKBKeyring e k un =
              (k, (Some f, Some err),
               [EvLock, EvMapRead un, EvSKBLoadAndIndex (SKBFilenameForUser e un), EvUnlock])"
    by (auto simp: LoadSKBKeyring_def os_IsNotExist_def split: option.splits)
  from a assms show "\<forall>e'. EvSKBLoadAndIndex (SKBFilenameForUser e' un) \<in>
                    set (snd (snd (LoadSKBKeyring e' (fst (LoadSKBKeyring e k un)) un)))"
    unfolding r by (auto simp: LoadSKBKeyring_def split: option.splits prod.splits)
next
  assume "(\<forall>g. skbMap k un \<noteq> Some (Some g)) \<and>
          skb_LoadAndIndex e (NewSKBKeyringFile e (SKBFilenameForUser e un)) =
            (f, Some ErrNotExist)"
  with assms show "LoadSKBKeyring e k un =
              (k\<lparr>skbMap := (skbMap k)(un \<mapsto> Some f)\<rparr>, (Some f, None),
               [EvLock, EvMapRead un, EvSKBLoadAndIndex (SKBFilenameForUser e un),
                EvMapWrite un, EvUnlock])"
    by (auto simp: LoadSKBKeyring_def os_IsNotExist_def split: option.splits)
next
  assume "skbMap k un = Some (Some g)"
  then show "LoadSKBKeyring e k un = (k, (Some g, None), [EvLock, EvMapRead un, EvUnlock])"
    by (simp add: LoadSKBKeyring_def)
next
  show "\<forall>u. u \<noteq> un \<longrightarrow> skbMap (fst (LoadSKBKeyring e k un)) u = skbMap k u"
    using skbMap_LoadSKBKeyring_cases [of e k un] by auto
qed

text \<open>
  With \<^verbatim>\<open>alice\<close> cached: the locked file of \<^verbatim>\<open>bob\<close> is not cached and is loaded again
  by the next call, the missing file of \<^verbatim>\<open>carol\<close> is cached, and the file of \<^verbatim>\<open>alice\<close>
  is returned from the cache.
\<close>

theorem LoadSKBKeyring_load_outcomes_witness:
  "fst (snd (LoadSKBKeyring env_X keyrings_alice ''bob'')) =
     (Some (''/keys/bob.skb'', []), Some (OtherError ''file is locked''))
   \<and> skbMap (fst (LoadSKBKeyring env_X keyrings_alice ''bob'')) ''bob'' = None
   \<and> EvSKBLoadAndIndex ''/keys/bob.skb'' \<in>
       set (snd (snd (LoadSKBKeyring env_X (fst (LoadSKBKeyring env_X keyrings_alice ''bob'')) ''bob'')))
   \<and> fst (snd (LoadSKBKeyring env_X keyrings_alice ''carol'')) =
       (Some (''/keys/carol.skb'', []), None)
   \<and> skbMap (fst (LoadSKBKeyring env_X keyrings_alice ''carol'')) ''carol'' =
       Some (Some (''/keys/carol.skb'', []))
   \<and> LoadSKBKeyring env_X keyrings_alice ''alice'' =
       (keyrings_alice, (Some (''/keys/alice.skb'', [11, 12]), None),
        [EvLock, EvMapRead ''alice'', EvUnlock])"
proof -
  have m: "skbMap keyrings_alice = [''alice'' \<mapsto> Some (''/keys/alice.skb'', [11, 12])]"
    by (simp add: keyrings_alice_def LoadSKBKeyring_alice)
  have b: "(\<forall>g. skbMap keyrings_alice ''bob'' \<noteq> Some (Some g)) \<and>
      skb_LoadAndIndex env_X (NewSKBKeyringFile env_X (SKBFilenameForUser env_X ''bob'')) =
        ((''/keys/bob.skb'', []), Some (OtherError ''file is locked'')) \<and>
      OtherError ''file is locked'' \<noteq> ErrNotExist"
    by (simp add: m SKBFilenameForUser_env_X env_X_simps)
  have c: "(\<forall>g. skbMap keyrings_alice ''carol'' \<noteq> Some (Some g)) \<and>
      skb_LoadAndIndex env_X (NewSKBKeyringFile env_X (SKBFilenameForUser env_X ''carol'')) =
        ((''/keys/carol.skb'', []), Some ErrNotExist)"
    by (simp add: m SKBFilenameForUser_env_X env_X_simps)
  have a: "skbMap keyrings_alice ''alice'' = Some (Some (''/keys/alice.skb'', [11, 12]))"
    by (simp add: m)
  have nb: "''bob'' \<noteq> ([]::string)" and nc: "''carol'' \<noteq> ([]::string)"
    and na: "''alice'' \<noteq> ([]::string)"
    by simp_all
  from LoadSKBKeyring_load_outcomes [OF nb, where k = keyrings_alice and e = env_X
         and f = "(''/keys/bob.skb'', [])" and err = "OtherError ''file is locked''"] b
  have r1: "LoadSKBKeyring env_X keyrings_alice ''bob'' =
              (keyrings_alice,
               (Some (''/keys/bob.skb'', []), Some (OtherError ''file is locked'')),
               [EvLock, EvMapRead ''bob'', EvSKBLoadAndIndex (SKBFilenameForUser env_X ''bob''),
                EvUnlock])"
    and r2: "EvSKBLoadAndIndex (SKBFilenameForUser env_X ''bob'') \<in>
        set (snd (snd (LoadSKBKeyring env_X (fst (LoadSKBKeyring env_X keyrings_alice ''bob''))
          ''bob'')))"
    by blast+
  from LoadSKBKeyring_load_outcomes [OF nc, where k = keyrings_alice and e = env_X
         and f = "(''/keys/carol.skb'', [])"] c
  have r3: "LoadSKBKeyring env_X keyrings_alice ''carol'' =
              (keyrings_alice\<lparr>skbMap := (skbMap keyrings_alice)(''carol'' \<mapsto>
                 Some (''/keys/carol.skb'', []))\<rparr>,
               (Some (''/keys/carol.skb'', []), None),
               [EvLock, EvMapRead ''carol'',
                EvSKBLoadAndIndex (SKBFilenameForUser env_X ''carol''),
                EvMapWrite ''carol'', EvUnlock])"
    by blast
  from LoadSKBKeyring_load_outcomes [OF na, where k = keyrings_alice and e = env_X
         and g = "(''/keys/alice.skb'', [11, 12])"] a
  have r4: "LoadSKBKeyring env_X keyrings_alice ''alice'' =
       (keyrings_alice, (Some (''/keys/alice.skb'', [11, 12]), None),
        [EvLock, EvMapRead ''alice'', EvUnlock])"
    by blast
  from r2 show ?thesis
    unfolding r1 r3 r4 by (simp add: m SKBFilenameForUser_env_X)
qed

subsection \<open>Resolving a secret key\<close>

text \<open>
  The resolution changes the keyrings through \<open>LoadSKBKeyring\<close> only, so it stays
  within the reachable states.
\<close>

lemma GetLockedLocalSecretKey_state:
  assumes "GetLockedLocalSecretKey e c k ska = Some (k', ret, evs)"
  shows "\<exists>un. k' = fst (LoadSKBKeyring e k un)"
proof (cases "Me ska")
  case None
  with assms show ?thesis by (simp add: GetLockedLocalSecretKey_def)
next
  case (Some me)
  obtain k1 keyring err evs1 where
    l: "LoadSKBKeyring e k (user_name c me) = (k1, (keyring, err), evs1)"
    by (metis prod.exhaust)
  from assms Some have "k' = k1"
    by (auto simp: GetLockedLocalSecretKey_def l split: option.splits prod.splits if_splits)
  with l show ?thesis by (metis fst_conv)
qed

lemma GetSecretKeyLocked_state:
  "GetSecretKeyLocked e c k ska = Some (k', res, evs) \<Longrightarrow>
   k' = k \<or> (\<exists>un. k' = fst (LoadSKBKeyring e k un))"
  unfolding GetSecretKeyLocked_def
  by (auto split: option.splits prod.splits if_splits dest: GetLockedLocalSecretKey_state)

lemma GetSecretKeyLocked_reachable:
  "reachable k \<Longrightarrow> GetSecretKeyLocked e c k ska = Some (k', res, evs) \<Longrightarrow> reachable k'"
  by (auto dest!: GetSecretKeyLocked_state intro: reachable.intros)

lemma LoadSKBKeyring_calls:
  "set (snd (snd (LoadSKBKeyring e k un))) \<subseteq>
     {EvLock, EvUnlock, EvMapRead un, EvMapWrite un,
      EvSKBLoadAndIndex (SKBFilenameForUser e un)}"
  by (auto simp: LoadSKBKeyring_def split: option.splits prod.splits)

lemma resolve_subject:
  assumes "Me ska = Some me \<or> (Me ska = None \<and> LoadMe c = (Some me, None))"
  shows "(case Me ska of
            None \<Rightarrow> (case LoadMe c of (me, err) \<Rightarrow> (me, err, [EvLoadMe]))
          | Some me \<Rightarrow> (Some me, None, [])) =
         (Some me, None, if Me ska = None then [EvLoadMe] else [])"
  using assms by auto

lemma collab_X_simps:
  "LoadMe collab_X = (Some ''alice'', None)"
  "user_name collab_X u = u"
  "GetComputedKeyFamily collab_X u = Some 7"
  "GetActiveSibkeyKidForCurrentDevice collab_X ckf = (Some [0x2A], None)"
  "LookupByKid collab_X (fn, [11, 12]) [0x2A] = Some 11"
  "SearchWithComputedKeyFamily collab_X (fn, [11, 12]) ckf = Some 12"
  "GetSyncedSecretKey collab_X u = (Some 13, None)"
  by (simp_all add: collab_X_def)

lemma collab_no_synced_simps:
  "LoadMe collab_no_synced = (Some ''alice'', None)"
  "user_name collab_no_synced u = u"
  "GetComputedKeyFamily collab_no_synced u = Some 7"
  "GetActiveSibkeyKidForCurrentDevice collab_no_synced ckf = (Some [0x2A], None)"
  "LookupByKid collab_no_synced (fn, [11, 12]) [0x2A] = Some 11"
  "GetSyncedSecretKey collab_no_synced u = (None, None)"
  by (simp_all add: collab_no_synced_def collab_X_def)

text \<open>
  Claim C1, as amended. For a request with \<^verbatim>\<open>All\<close> set whose subject resolves to a
  user with a per-user keyring, a computed key family, an active device key
  identifier and a key under that identifier in the keyring, \<open>GetSecretKeyLocked\<close>
  returns that key with no error and with the empty provenance string, and calls
  neither the synced-key provider nor the search of the local keyring.
\<close>

theorem GetSecretKeyLocked_device_key_first:
  assumes all: "All_flag ska"
    and subj: "Me ska = Some me \<or> (Me ska = None \<and> LoadMe c = (Some me, None))"
    and ring: "LoadSKBKeyring e k (user_name c me) = (k', (Some keyring, None), evs)"
    and ckf: "GetComputedKeyFamily c me = Some ckf"
    and kid: "GetActiveSibkeyKidForCurrentDevice c ckf = (Some kid, None)"
    and dev: "LookupByKid c keyring kid = Some dev"
  shows "GetSecretKeyLocked e c k ska =
           Some (k', (Some dev, [], None),
                 (if Me ska = None then [EvLoadMe] else []) @ evs @
                 [EvGetComputedKeyFamily, EvGetActiveSibkeyKidForCurrentDevice,
                  EvLookupByKid kid])
         \<and> EvGetSyncedSecretKey \<notin> set (calls_of (GetSecretKeyLocked e c k ska))
         \<and> EvSearchWithComputedKeyFamily \<notin> set (calls_of (GetSecretKeyLocked e c k ska))"
proof -
  have d: "device_key_step c (ska\<lparr>Me := Some me\<rparr>) keyring ckf =
             (Some dev, [EvGetActiveSibkeyKidForCurrentDevice, EvLookupByKid kid])"
    using all kid dev by (simp add: device_key_step_def UseDeviceKey_def)
  have l: "GetLockedLocalSecretKey e c k (ska\<lparr>Me := Some me\<rparr>) =
             Some (k', Some dev,
                   evs @ [EvGetComputedKeyFamily, EvGetActiveSibkeyKidForCurrentDevice,
                          EvLookupByKid kid])"
    by (simp add: GetLockedLocalSecretKey_def ring ckf d)
  have r: "GetSecretKeyLocked e c k ska =
           Some (k', (Some dev, [], None),
                 (if Me ska = None then [EvLoadMe] else []) @ evs @
                 [EvGetComputedKeyFamily, EvGetActiveSibkeyKidForCurrentDevice,
                  EvLookupByKid kid])"
    unfolding GetSecretKeyLocked_def resolve_subject [OF subj]
    by (simp add: l)
  have evs: "EvGetSyncedSecretKey \<notin> set evs \<and> EvSearchWithComputedKeyFamily \<notin> set evs"
    using LoadSKBKeyring_calls [of e k "user_name c me"] by (auto simp: ring)
  show ?thesis
    unfolding r using evs by (simp add: calls_of_def)
qed

text \<open>The request of \<^verbatim>\<open>alice\<close> for all keys resolves to her device key 11.\<close>

theorem GetSecretKeyLocked_device_key_first_witness:
  "GetSecretKeyLocked env_X collab_X keyrings_new ska_all =
     Some (keyrings_alice, (Some 11, [], None),
           [EvLock, EvMapRead ''alice'', EvSKBLoadAndIndex ''/keys/alice.skb'',
            EvMapWrite ''alice'', EvUnlock, EvGetComputedKeyFamily,
            EvGetActiveSibkeyKidForCurrentDevice, EvLookupByKid [0x2A]])"
proof -
  have ring: "LoadSKBKeyring env_X keyrings_new (user_name collab_X ''alice'') =
     (keyrings_alice, (Some (''/keys/alice.skb'', [11, 12]), None),
      [EvLock, EvMapRead ''alice'', EvSKBLoadAndIndex ''/keys/alice.skb'', EvMapWrite ''alice'',
       EvUnlock])"
    by (simp add: collab_X_simps keyrings_alice_def LoadSKBKeyring_alice)
  have subj: "Me ska_all = Some ''alice'' \<or> (Me ska_all = None \<and> LoadMe collab_X = (Some ''alice'', None))"
    by (simp add: ska_all_def)
  have all: "All_flag ska_all"
    by (simp add: ska_all_def)
  from GetSecretKeyLocked_device_key_first [OF all subj ring collab_X_simps(3)
         collab_X_simps(4) collab_X_simps(5)]
  show ?thesis by (simp add: ska_all_def)
qed

text \<open>
  Claim C1 as stated fails for \<^verbatim>\<open>alice\<close>, who has a device key, a matching local key
  and a synced key: the device key is returned, and the provenance is the empty
  string, not \<^verbatim>\<open>device key\<close>.
\<close>

theorem GetSecretKeyLocked_provenance_counterexample:
  "All_flag ska_all
   \<and> LookupByKid collab_X (''/keys/alice.skb'', [11, 12]) [0x2A] = Some 11
   \<and> SearchWithComputedKeyFamily collab_X (''/keys/alice.skb'', [11, 12]) 7 = Some 12
   \<and> GetSyncedSecretKey collab_X ''alice'' = (Some 13, None)
   \<and> result_of (GetSecretKeyLocked env_X collab_X keyrings_new ska_all) = Some (Some 11, [], None)
   \<and> result_of (GetSecretKeyLocked env_X collab_X keyrings_new ska_all) \<noteq>
       Some (Some 11, ''device key'', None)"
  by (simp add: GetSecretKeyLocked_def GetLockedLocalSecretKey_def device_key_step_def
      UseDeviceKey_def SearchForKey_def UseSyncedPGPKey_def result_of_def
      collab_X_simps LoadSKBKeyring_alice ska_all_def)

text \<open>
  Claim C3. For a request that sets the synced-key flag only, on a subject without a
  synced key, \<open>GetSecretKeyLocked\<close> returns \<open>NoSecretKeyError\<close> and no key; it asks
  the synced-key provider, and it neither asks for the device key identifier nor looks
  a key up by it.
\<close>

theorem GetSecretKeyLocked_synced_only_no_synced_key:
  assumes flags: "\<not> All_flag ska" "\<not> DeviceKey ska" "\<not> SearchKey ska" "SyncedPGPKey ska"
    and subj: "Me ska = Some me \<or> (Me ska = None \<and> LoadMe c = (Some me, None))"
    and nosync: "GetSyncedSecretKey c me = (None, None)"
  shows "result_of (GetSecretKeyLocked e c k ska) = Some (None, [], Some NoSecretKeyError)
         \<and> EvGetActiveSibkeyKidForCurrentDevice \<notin> set (calls_of (GetSecretKeyLocked e c k ska))
         \<and> (\<forall>kid. EvLookupByKid kid \<notin> set (calls_of (GetSecretKeyLocked e c k ska)))
         \<and> EvGetSyncedSecretKey \<in> set (calls_of (GetSecretKeyLocked e c k ska))"
proof -
  obtain k' keyring err evs where
    ring: "LoadSKBKeyring e k (user_name c me) = (k', (keyring, err), evs)"
    by (metis prod.exhaust)
  have evs: "EvGetActiveSibkeyKidForCurrentDevice \<notin> set evs \<and> (\<forall>kid. EvLookupByKid kid \<notin> set evs)"
    using LoadSKBKeyring_calls [of e k "user_name c me"] by (auto simp: ring)
  have d: "\<And>kr ckf. device_key_step c (ska\<lparr>Me := Some me\<rparr>) kr ckf = (None, [])"
    using flags by (simp add: device_key_step_def UseDeviceKey_def)
  have s: "\<not> SearchForKey (ska\<lparr>Me := Some me\<rparr>)" "UseSyncedPGPKey ska"
    using flags by (simp_all add: SearchForKey_def UseSyncedPGPKey_def)
  have l: "GetLockedLocalSecretKey e c k (ska\<lparr>Me := Some me\<rparr>) = Some (k', None, evs) \<or>
           GetLockedLocalSecretKey e c k (ska\<lparr>Me := Some me\<rparr>) =
             Some (k', None, evs @ [EvGetComputedKeyFamily])"
    by (cases err; cases keyring; cases "GetComputedKeyFamily c me")
       (simp_all add: GetLockedLocalSecretKey_def ring d s)
  then obtain evs1 where l1: "GetLockedLocalSecretKey e c k (ska\<lparr>Me := Some me\<rparr>) =
             Some (k', None, evs1)"
    and evs1: "evs1 = evs \<or> evs1 = evs @ [EvGetComputedKeyFamily]"
    by blast
  have r: "GetSecretKeyLocked e c k ska =
           Some (k', (None, [], Some NoSecretKeyError),
                 (if Me ska = None then [EvLoadMe] else []) @ evs1 @ [EvGetSyncedSecretKey])"
    unfolding GetSecretKeyLocked_def resolve_subject [OF subj]
    by (simp add: l1 s nosync)
  show ?thesis
    unfolding r using evs evs1 by (auto simp: calls_of_def result_of_def)
qed

text \<open>
  \<^verbatim>\<open>alice\<close> has a device key and no synced key; the subject of the request is
  resolved by \<^verbatim>\<open>LoadMe\<close>.
\<close>

theorem GetSecretKeyLocked_synced_only_no_synced_key_witness:
  "LookupByKid collab_no_synced (''/keys/alice.skb'', [11, 12]) [0x2A] = Some 11
   \<and> result_of (GetSecretKeyLocked env_X collab_no_synced keyrings_new ska_synced_only) =
       Some (None, [], Some NoSecretKeyError)
   \<and> EvGetActiveSibkeyKidForCurrentDevice \<notin>
       set (calls_of (GetSecretKeyLocked env_X collab_no_synced keyrings_new ska_synced_only))"
proof -
  have flags: "\<not> All_flag ska_synced_only" "\<not> DeviceKey ska_synced_only"
    "\<not> SearchKey ska_synced_only" "SyncedPGPKey ska_synced_only"
    by (simp_all add: ska_synced_only_def)
  have subj: "Me ska_synced_only = Some ''alice'' \<or>
      (Me ska_synced_only = None \<and> LoadMe collab_no_synced = (Some ''alice'', None))"
    by (simp add: ska_synced_only_def collab_no_synced_simps)
  from GetSecretKeyLocked_synced_only_no_synced_key [OF flags subj collab_no_synced_simps(6),
         where e = env_X and k = keyrings_new]
  show ?thesis by (simp add: collab_no_synced_simps)
qed

end
